theory Spec2Isabelle
  imports Complex_Main "HOL-Library.Log_Nat"
begin

section \<open>Python values used by the two scripts\<close>

text \<open>
  The repository consists of two Python scripts. \<^verbatim>\<open>batch_generate.py\<close> derives an angle
  and a "diverse" value for each radius of a fixed list and starts \<^verbatim>\<open>generate_stls.py\<close>
  once per radius; \<^verbatim>\<open>generate_stls.py\<close> starts the external program \<^verbatim>\<open>openscad\<close> once
  per radius and configuration. Python integers are unbounded and are modelled by \<open>int\<close>.
  An exception is a value of \<open>py_error\<close>; a function that can raise returns
  \<open>py_error + 'a\<close>, with \<open>Inl\<close> for the exception.
\<close>

datatype py_error =
    OverflowError
  | KeyError
  | ValueError
  | TimeoutExpired
  | OtherException string

subsection \<open>Binary64 arithmetic\<close>

text \<open>
  \<^verbatim>\<open>calculate_diverse\<close> computes with Python floats, which are IEEE 754 binary64 values.
  Every float that occurs there is non-negative, so a finite float is modelled by the
  non-negative rational number it denotes and \<open>Infinity\<close> is the positive infinity.
  An arithmetic operation returns the exact result rounded to the nearest binary64 value,
  ties going to the even significand. \<open>round_double\<close> is that rounding for a non-negative
  rational \<open>y\<close>: \<open>binade y\<close> is the exponent \<open>e\<close> with \<open>2 powi e \<le> y < 2 powi (e + 1)\<close>,
  but at least \<open>-1022\<close> (below that the values are subnormal and equally spaced);
  \<open>ulp y\<close> is the distance \<open>2 powi (e - 52)\<close> between neighbouring binary64 values there;
  and a rounded value of \<open>2 ^ 1024\<close> or more is an overflow.
\<close>

datatype pyfloat = Fin rat | Infinity

definition round_half_even :: "rat \<Rightarrow> int" where
  "round_half_even z =
     (let f = \<lfloor>z\<rfloor>; d = z - of_int f
      in if d < 1 / 2 then f else if 1 / 2 < d then f + 1 else if even f then f else f + 1)"

definition binade :: "rat \<Rightarrow> int" where
  "binade y = max (bitlen \<lfloor>y * 2 ^ 1074\<rfloor> - 1075) (- 1022)"

definition ulp :: "rat \<Rightarrow> rat" where
  "ulp y = 2 powi (binade y - 52)"

definition round_double :: "rat \<Rightarrow> pyfloat" where
  "round_double y =
     (let v = of_int (round_half_even (y / ulp y)) * ulp y
      in if 2 ^ 1024 \<le> v then Infinity else Fin v)"

text \<open>
  The operations of Python on these values. Converting an integer to a float rounds it and
  raises \<^verbatim>\<open>OverflowError\<close> when the rounded value is not finite (a mixed operation such as
  \<^verbatim>\<open>a * n\<close> or \<^verbatim>\<open>x + 500\<close> converts its integer operand first). A product or a sum of
  floats that overflows is an infinity instead, an infinity plus a finite float is an
  infinity, and \<^verbatim>\<open>int\<close> truncates a finite float towards zero and raises
  \<^verbatim>\<open>OverflowError\<close> on an infinity.
\<close>

definition float_of_int :: "int \<Rightarrow> py_error + rat" where
  "float_of_int n =
     (case round_double (of_int n) of Infinity \<Rightarrow> Inl OverflowError | Fin v \<Rightarrow> Inr v)"

definition float_mul :: "rat \<Rightarrow> rat \<Rightarrow> pyfloat" where
  "float_mul x y = round_double (x * y)"

fun float_add :: "pyfloat \<Rightarrow> rat \<Rightarrow> pyfloat" where
  "float_add (Fin x) y = round_double (x + y)"
| "float_add Infinity y = Infinity"

fun int_of_float :: "pyfloat \<Rightarrow> py_error + int" where
  "int_of_float (Fin v) = Inr (if 0 \<le> v then \<lfloor>v\<rfloor> else \<lceil>v\<rceil>)"
| "int_of_float Infinity = Inl OverflowError"

subsection \<open>Dictionaries\<close>

text \<open>
  A dictionary is an association list in insertion order; \<^verbatim>\<open>d[k]\<close> raises
  \<^verbatim>\<open>KeyError\<close> for a missing key and \<^verbatim>\<open>d.get(k)\<close> returns \<^verbatim>\<open>None\<close> for it.
\<close>

definition subscript :: "('k \<times> 'v) list \<Rightarrow> 'k \<Rightarrow> py_error + 'v" where
  "subscript d k = (case map_of d k of None \<Rightarrow> Inl KeyError | Some v \<Rightarrow> Inr v)"

definition dict_get :: "('k \<times> 'v) list \<Rightarrow> 'k \<Rightarrow> 'v option" where
  "dict_get d k = map_of d k"

section \<open>The parameter table of \<^verbatim>\<open>batch_generate.py\<close>\<close>

text \<open>
  \<^verbatim>\<open>RADII = [24, 32, 40, 48, 56, 64, 72, 80, 88, 96, 104, 112, 120]\<close> and the dictionary
  \<^verbatim>\<open>ANGLE_MAP\<close>, whose values are the literals \<^verbatim>\<open>22.5\<close>, \<^verbatim>\<open>18\<close>, \<^verbatim>\<open>15\<close> and
  \<^verbatim>\<open>11.25\<close>; the two float literals are binary64 values exactly.
\<close>

definition RADII :: "int list" where
  "RADII = [24, 32, 40, 48, 56, 64, 72, 80, 88, 96, 104, 112, 120]"

definition ANGLE_MAP :: "(int \<times> rat) list" where
  "ANGLE_MAP =
     [(24, 22.5), (32, 22.5), (40, 18), (48, 18), (56, 18), (64, 15), (72, 15), (80, 15),
      (88, 15), (96, 11.25), (104, 11.25), (112, 11.25), (120, 11.25)]"

text \<open>
  \<^verbatim>\<open>
  def calculate_diverse(radius):
      a = 0.8125
      vertex = 64
      minimum = 500
      maximum = 1800
      diverse = a * (radius - vertex) ** 2 + minimum
      return min(int(diverse), maximum)
  \<close>
  The difference and the square are integer operations. The literal \<^verbatim>\<open>0.8125\<close> is the
  binary64 value \<open>13/16\<close>. The product converts the square to a float and multiplies, the
  sum converts \<^verbatim>\<open>minimum\<close> and adds, each with its rounding.
\<close>

definition calculate_diverse :: "int \<Rightarrow> py_error + int" where
  "calculate_diverse radius =
     (let a = 13 / 16; vertex = 64; minimum = 500; maximum = 1800
      in case float_of_int ((radius - vertex) ^ 2) of
           Inl e \<Rightarrow> Inl e
         | Inr sq \<Rightarrow>
             (case float_of_int minimum of
                Inl e \<Rightarrow> Inl e
              | Inr m \<Rightarrow>
                  (case int_of_float (float_add (float_mul a sq) m) of
                     Inl e \<Rightarrow> Inl e
                   | Inr d \<Rightarrow> Inr (min d maximum))))"

text \<open>
  \<^verbatim>\<open>DIVERSE_MAP = {radius: calculate_diverse(radius) for radius in RADII}\<close> is evaluated
  when the module is loaded; an exception of \<^verbatim>\<open>calculate_diverse\<close> would end it.
\<close>

fun diverse_comprehension :: "int list \<Rightarrow> py_error + (int \<times> int) list" where
  "diverse_comprehension [] = Inr []"
| "diverse_comprehension (radius # rest) =
     (case calculate_diverse radius of
        Inl e \<Rightarrow> Inl e
      | Inr diverse \<Rightarrow>
          (case diverse_comprehension rest of
             Inl e \<Rightarrow> Inl e
           | Inr m \<Rightarrow> Inr ((radius, diverse) # m)))"

definition DIVERSE_MAP :: "py_error + (int \<times> int) list" where
  "DIVERSE_MAP = diverse_comprehension RADII"

text \<open>
  The specification's formula for the diverse value,
  \<^verbatim>\<open>min(int(0.8125*(radius-64)^2+500), 1800)\<close>, read in exact arithmetic, and its wording
  for the radius list: the steps of a list are the differences of neighbouring entries.
\<close>

definition spec_diverse :: "int \<Rightarrow> int" where
  "spec_diverse radius = min \<lfloor>(0.8125 :: rat) * of_int ((radius - 64) ^ 2) + 500\<rfloor> 1800"

definition steps :: "int list \<Rightarrow> int list" where
  "steps xs = map (\<lambda>(a, b). b - a) (zip xs (tl xs))"

section \<open>Subprocesses, the file system and the console\<close>

text \<open>
  Both scripts act on the outside world in three ways: they start subprocesses with
  \<^verbatim>\<open>subprocess.run\<close>, they touch the file system (\<^verbatim>\<open>scad_file.exists()\<close>,
  \<^verbatim>\<open>output_dir.mkdir(parents=True, exist_ok=True)\<close>) and they print. The world is a
  state of an arbitrary type \<open>'w\<close>, and an environment says what each action does to it:
  which way a subprocess ends, whether a path exists, whether a directory can be made.
  Nothing is assumed about the environment. Printing does not fail.

  A command line is a list of tokens. \<open>Num n\<close> and \<open>Flt x\<close> stand for the text of
  \<^verbatim>\<open>str(n)\<close> and \<^verbatim>\<open>str(x)\<close>, \<open>Define k v\<close> for the two words \<^verbatim>\<open>-D 'k=v'\<close>, and
  \<open>Stl_path d r c\<close> for the path \<^verbatim>\<open>d / f"r{r}_{c}.stl"\<close>.
\<close>

datatype token =
    Str string
  | Num int
  | Flt rat
  | Define string token
  | Stl_path string int string

type_synonym command = "token list"

text \<open>
  A child process exits with a return code, having written some text to its standard
  error, or it is still running when the timeout elapses, or \<^verbatim>\<open>subprocess.run\<close> raises
  some other exception (the program cannot be started, for instance).
\<close>

datatype child = Exited int string | Timed_out | Failed string

record 'w env =
  spawn :: "'w \<Rightarrow> command \<Rightarrow> child \<times> 'w"
  path_exists :: "'w \<Rightarrow> string \<Rightarrow> bool"
  mkdir :: "'w \<Rightarrow> string \<Rightarrow> py_error option \<times> 'w"

text \<open>
  What is printed, one constructor for each print statement or run of print statements
  that always occur together. The marks printed by \<^verbatim>\<open>run_generator\<close> are a check, a
  cross, a cross with \<^verbatim>\<open>(timeout)\<close>, a cross with \<^verbatim>\<open>(error)\<close>, and the empty line that
  replaces each of them in verbose mode.
\<close>

datatype mark = Check | Cross | Cross_timeout | Cross_error | Blank

datatype printed =
    Generating_banner int rat int
  | Generating int
  | Status mark
  | Error_stderr "string option"
  | Error_timeout int
  | Error_generating int py_error
  | Dry_run_header
  | Dry_run_row int rat int
  | Dry_run_total nat nat
  | Batch_header string nat nat
  | Batch_summary nat nat nat nat string
  | Failed_radii "int list"
  | All_generated
  | Scad_not_found string
  | Openscad_missing
  | Radius_banner int rat
  | Stl_generating token command
  | Stl_error token "string option"
  | Stl_ok token
  | Stl_timeout token
  | Stl_exception token py_error
  | Stl_failed token
  | Stl_summary nat nat string

text \<open>
  The state of a run: the world, the subprocesses started so far, each with the way it
  ended, and everything printed so far. A script ends with an exit code, or with an
  exception that nothing caught.
\<close>

record 'w state =
  world :: 'w
  calls :: "(command \<times> child) list"
  out :: "printed list"

datatype exit_status = Exit int | Uncaught py_error

definition init :: "'w \<Rightarrow> 'w state" where
  "init w = \<lparr>world = w, calls = [], out = []\<rparr>"

definition print :: "printed \<Rightarrow> 'w state \<Rightarrow> 'w state" where
  "print line s = s\<lparr>out := out s @ [line]\<rparr>"

text \<open>
  \<^verbatim>\<open>subprocess.run(cmd, capture_output=..., text=True, timeout=...)\<close> returns a completed
  process, here its \<^verbatim>\<open>returncode\<close> and its \<^verbatim>\<open>stderr\<close>, or raises. The attribute
  \<^verbatim>\<open>stderr\<close> is the text the child wrote if the output was captured and \<^verbatim>\<open>None\<close>
  otherwise.
\<close>

definition subprocess_run ::
  "'w env \<Rightarrow> command \<Rightarrow> bool \<Rightarrow> 'w state \<Rightarrow> (py_error + int \<times> string option) \<times> 'w state" where
  "subprocess_run env cmd capture_output s =
     (let (c, w) = spawn env (world s) cmd;
          s' = s\<lparr>world := w, calls := calls s @ [(cmd, c)]\<rparr>
      in case c of
           Exited returncode err \<Rightarrow>
             (Inr (returncode, if capture_output then Some err else None), s')
         | Timed_out \<Rightarrow> (Inl TimeoutExpired, s')
         | Failed msg \<Rightarrow> (Inl (OtherException msg), s'))"

section \<open>The single-job invokers\<close>

subsection \<open>\<^verbatim>\<open>run_generator\<close> of \<^verbatim>\<open>batch_generate.py\<close>\<close>

text \<open>
  \<^verbatim>\<open>run_generator(radius, angle, diverse, output_dir=None, verbose=False)\<close> builds the
  command line of the inner script, prints what it is about to do, runs the command with
  a timeout of 600 seconds, capturing the output unless verbose, and returns whether it
  succeeded. Its \<^verbatim>\<open>try\<close> statement ends in one of four ways: the return code is zero,
  the return code is not zero, \<^verbatim>\<open>except subprocess.TimeoutExpired\<close>, and
  \<^verbatim>\<open>except Exception\<close>. The last three return \<^verbatim>\<open>False\<close>.
\<close>

definition run_generator ::
  "'w env \<Rightarrow> int \<Rightarrow> rat \<Rightarrow> int \<Rightarrow> string option \<Rightarrow> bool \<Rightarrow> 'w state \<Rightarrow> bool \<times> 'w state" where
  "run_generator env radius angle diverse output_dir verbose s =
     (let cmd = [Str ''python3'', Str ''generate_stls.py'',
                 Str ''-r'', Num radius, Str ''-a'', Flt angle, Str ''-d'', Num diverse]
                @ (case output_dir of None \<Rightarrow> [] | Some d \<Rightarrow> [Str ''-o'', Str d])
                @ (if verbose then [Str ''-v''] else []);
          s1 = print (if verbose then Generating_banner radius angle diverse
                      else Generating radius) s;
          (result, s2) = subprocess_run env cmd (\<not> verbose) s1
      in case result of
           Inr (returncode, stderr) \<Rightarrow>
             if returncode = 0
             then (True, print (Status (if \<not> verbose then Check else Blank)) s2)
             else (False, print (Error_stderr stderr)
                            (print (Status (if \<not> verbose then Cross else Blank)) s2))
         | Inl e \<Rightarrow>
             if e = TimeoutExpired
             then (False, print (Error_timeout radius)
                            (print (Status (if \<not> verbose then Cross_timeout else Blank)) s2))
             else (False, print (Error_generating radius e)
                            (print (Status (if \<not> verbose then Cross_error else Blank)) s2)))"

subsection \<open>\<^verbatim>\<open>generate_stl\<close> of \<^verbatim>\<open>generate_stls.py\<close>\<close>

definition CONFIGURATIONS :: "(string \<times> (string \<times> string) list) list" where
  "CONFIGURATIONS =
     [(''ballast_and_buddy'',
         [(''generate_track'', ''false''), (''generate_ballast'', ''true''),
          (''generate_ballast_buddy'', ''true'')]),
      (''ballast'',
         [(''generate_track'', ''false''), (''generate_ballast'', ''true''),
          (''generate_ballast_buddy'', ''false'')]),
      (''track_ballast_and_buddy'',
         [(''generate_track'', ''true''), (''generate_ballast'', ''true''),
          (''generate_ballast_buddy'', ''true'')]),
      (''track_and_ballast'',
         [(''generate_track'', ''true''), (''generate_ballast'', ''true''),
          (''generate_ballast_buddy'', ''false'')])]"

text \<open>
  \<^verbatim>\<open>generate_scad_params\<close> raises \<^verbatim>\<open>ValueError\<close> for a configuration that
  \<^verbatim>\<open>CONFIGURATIONS.get\<close> does not find (or finds empty) and returns the parameters
  otherwise.
\<close>

definition generate_scad_params ::
  "int \<Rightarrow> rat \<Rightarrow> string \<Rightarrow> int option \<Rightarrow> py_error + token list" where
  "generate_scad_params radius angle config diverse =
     (case dict_get CONFIGURATIONS config of
        None \<Rightarrow> Inl ValueError
      | Some params \<Rightarrow>
          if params = [] then Inl ValueError
          else
            (case subscript params ''generate_track'' of
               Inl e \<Rightarrow> Inl e
             | Inr track \<Rightarrow>
                 (case subscript params ''generate_ballast'' of
                    Inl e \<Rightarrow> Inl e
                  | Inr ballast \<Rightarrow>
                      (case subscript params ''generate_ballast_buddy'' of
                         Inl e \<Rightarrow> Inl e
                       | Inr buddy \<Rightarrow>
                           Inr ([Define ''Radius'' (Num radius),
                                 Define ''SegAng'' (Flt angle),
                                 Define ''generate_track'' (Str track),
                                 Define ''generate_ballast'' (Str ballast),
                                 Define ''generate_ballast_buddy'' (Str buddy)]
                                @ (case diverse of
                                     None \<Rightarrow> []
                                   | Some d \<Rightarrow> [Define ''diverse'' (Num d)]))))))"

text \<open>
  \<^verbatim>\<open>generate_stl\<close> builds the parameters before its \<^verbatim>\<open>try\<close> statement, so their
  \<^verbatim>\<open>ValueError\<close> is not caught; it runs \<^verbatim>\<open>openscad\<close> with a timeout of 300 seconds and
  the output captured.
\<close>

definition generate_stl ::
  "'w env \<Rightarrow> string \<Rightarrow> token \<Rightarrow> int \<Rightarrow> rat \<Rightarrow> string \<Rightarrow> bool \<Rightarrow> int option \<Rightarrow> 'w state
     \<Rightarrow> (py_error + bool) \<times> 'w state" where
  "generate_stl env scad_file output_file radius angle config verbose diverse s =
     (case generate_scad_params radius angle config diverse of
        Inl e \<Rightarrow> (Inl e, s)
      | Inr params \<Rightarrow>
          (let cmd = [Str ''openscad''] @ params @ [Str ''-o'', output_file, Str scad_file];
               s1 = (if verbose then print (Stl_generating output_file cmd) s else s);
               (result, s2) = subprocess_run env cmd True s1
           in case result of
                Inr (returncode, stderr) \<Rightarrow>
                  if returncode \<noteq> 0
                  then (Inr False, print (Stl_error output_file stderr) s2)
                  else (Inr True, if verbose then print (Stl_ok output_file) s2 else s2)
              | Inl e \<Rightarrow>
                  if e = TimeoutExpired
                  then (Inr False, print (Stl_timeout output_file) s2)
                  else (Inr False, print (Stl_exception output_file e) s2)))"

text \<open>
  \<^verbatim>\<open>generate_all_configs\<close> makes the output directory and runs \<^verbatim>\<open>generate_stl\<close> for
  each key of \<open>CONFIGURATIONS\<close>, counting the successes and the attempts.
\<close>

fun configs_loop ::
  "'w env \<Rightarrow> string \<Rightarrow> string \<Rightarrow> int \<Rightarrow> rat \<Rightarrow> bool \<Rightarrow> int option \<Rightarrow> string list \<Rightarrow> nat \<times> nat
     \<Rightarrow> 'w state \<Rightarrow> (py_error + nat \<times> nat) \<times> 'w state" where
  "configs_loop env scad_file output_dir radius angle verbose diverse []
       (success_count, total_count) s =
     (Inr (success_count, total_count), s)"
| "configs_loop env scad_file output_dir radius angle verbose diverse (config # rest)
       (success_count, total_count) s =
     (let output_file = Stl_path output_dir radius config
      in case generate_stl env scad_file output_file radius angle config verbose diverse s of
           (Inl e, s1) \<Rightarrow> (Inl e, s1)
         | (Inr ok, s1) \<Rightarrow>
             if ok
             then configs_loop env scad_file output_dir radius angle verbose diverse rest
                    (success_count + 1, total_count + 1) s1
             else configs_loop env scad_file output_dir radius angle verbose diverse rest
                    (success_count, total_count + 1) (print (Stl_failed output_file) s1))"

definition generate_all_configs ::
  "'w env \<Rightarrow> string \<Rightarrow> string \<Rightarrow> int \<Rightarrow> rat \<Rightarrow> bool \<Rightarrow> int option \<Rightarrow> 'w state
     \<Rightarrow> (py_error + nat \<times> nat) \<times> 'w state" where
  "generate_all_configs env scad_file output_dir radius angle verbose diverse s =
     (case mkdir env (world s) output_dir of
        (Some e, w) \<Rightarrow> (Inl e, s\<lparr>world := w\<rparr>)
      | (None, w) \<Rightarrow>
          configs_loop env scad_file output_dir radius angle verbose diverse
            (map fst CONFIGURATIONS) (0, 0) (s\<lparr>world := w\<rparr>))"

section \<open>The command lines\<close>

text \<open>
  The parsed command line of each script. Both have \<^verbatim>\<open>-v\<close> and \<^verbatim>\<open>-o\<close>; the batch
  driver adds \<^verbatim>\<open>--dry-run\<close>, the inner generator (further down) the radii, the angle,
  the configuration, the scene file and the diverse value.
\<close>

record args =
  verbose :: bool
  output_dir :: string

record batch_args = args +
  dry_run :: bool

section \<open>The batch driver \<^verbatim>\<open>batch_generate.py\<close>\<close>

text \<open>
  The two loops of \<^verbatim>\<open>main\<close> over \<open>RADII\<close>. The loop of the dry run prints one row for
  each radius. The loop of the batch calls \<^verbatim>\<open>run_generator\<close> for each radius and keeps
  \<^verbatim>\<open>success_count\<close> and \<^verbatim>\<open>failed_radii\<close>. Both look the radius up in the two
  dictionaries first.
\<close>

fun dry_run_rows ::
  "(int \<times> int) list \<Rightarrow> int list \<Rightarrow> 'w state \<Rightarrow> py_error option \<times> 'w state" where
  "dry_run_rows diverse_map [] s = (None, s)"
| "dry_run_rows diverse_map (radius # rest) s =
     (case subscript ANGLE_MAP radius of
        Inl e \<Rightarrow> (Some e, s)
      | Inr angle \<Rightarrow>
          (case subscript diverse_map radius of
             Inl e \<Rightarrow> (Some e, s)
           | Inr diverse \<Rightarrow>
               dry_run_rows diverse_map rest (print (Dry_run_row radius angle diverse) s)))"

fun generate_radii ::
  "'w env \<Rightarrow> (int \<times> int) list \<Rightarrow> batch_args \<Rightarrow> int list \<Rightarrow> nat \<times> int list \<Rightarrow> 'w state
     \<Rightarrow> (py_error + nat \<times> int list) \<times> 'w state" where
  "generate_radii env diverse_map args [] (success_count, failed_radii) s =
     (Inr (success_count, failed_radii), s)"
| "generate_radii env diverse_map args (radius # rest) (success_count, failed_radii) s =
     (case subscript ANGLE_MAP radius of
        Inl e \<Rightarrow> (Inl e, s)
      | Inr angle \<Rightarrow>
          (case subscript diverse_map radius of
             Inl e \<Rightarrow> (Inl e, s)
           | Inr diverse \<Rightarrow>
               (let (ok, s1) = run_generator env radius angle diverse
                                 (Some (output_dir args)) (verbose args) s
                in if ok
                   then generate_radii env diverse_map args rest
                          (success_count + 1, failed_radii) s1
                   else generate_radii env diverse_map args rest
                          (success_count, failed_radii @ [radius]) s1)))"

text \<open>
  \<^verbatim>\<open>main\<close> of the batch driver, after the command line is parsed. Returning from
  \<^verbatim>\<open>main\<close> ends the script with exit code 0, \<^verbatim>\<open>sys.exit(1)\<close> with exit code 1.
\<close>

definition batch_generate_main :: "'w env \<Rightarrow> batch_args \<Rightarrow> 'w state \<Rightarrow> exit_status \<times> 'w state" where
  "batch_generate_main env args s =
     (case DIVERSE_MAP of
        Inl e \<Rightarrow> (Uncaught e, s)
      | Inr diverse_map \<Rightarrow>
          if dry_run args
          then (case dry_run_rows diverse_map RADII (print Dry_run_header s) of
                  (Some e, s1) \<Rightarrow> (Uncaught e, s1)
                | (None, s1) \<Rightarrow>
                    (Exit 0, print (Dry_run_total (length RADII) (length RADII * 4)) s1))
          else (case generate_radii env diverse_map args RADII (0, [])
                       (print (Batch_header (output_dir args) (length RADII) (length RADII * 4)) s) of
                  (Inl e, s1) \<Rightarrow> (Uncaught e, s1)
                | (Inr (success_count, failed_radii), s1) \<Rightarrow>
                    (let total_files = length RADII * 4;
                         successful_files = success_count * 4;
                         s2 = print (Batch_summary success_count (length RADII) successful_files
                                       total_files (output_dir args)) s1
                     in if failed_radii \<noteq> []
                        then (Exit 1, print (Failed_radii failed_radii) s2)
                        else (Exit 0, print All_generated s2))))"

section \<open>The inner generator \<^verbatim>\<open>generate_stls.py\<close>\<close>

text \<open>
  \<^verbatim>\<open>check_openscad\<close> runs \<^verbatim>\<open>which openscad\<close>, outside any \<^verbatim>\<open>try\<close>, and ends the
  script with exit code 1 if the return code is not zero. Its result here is the way the
  script ends, if it ends.
\<close>

definition check_openscad :: "'w env \<Rightarrow> 'w state \<Rightarrow> exit_status option \<times> 'w state" where
  "check_openscad env s =
     (let (result, s1) = subprocess_run env [Str ''which'', Str ''openscad''] True s
      in case result of
           Inl e \<Rightarrow> (Some (Uncaught e), s1)
         | Inr (returncode, stderr) \<Rightarrow>
             if returncode \<noteq> 0 then (Some (Exit 1), print Openscad_missing s1) else (None, s1))"

record stl_args = args +
  radius :: "int list"
  angle :: rat
  config :: "string option"
  scad_file :: string
  diverse :: "int option"

text \<open>
  The loop of \<^verbatim>\<open>main\<close> over the radii of the command line, with \<^verbatim>\<open>total_success\<close>
  and \<^verbatim>\<open>total_generated\<close>. The test \<^verbatim>\<open>if args.config\<close> holds for a string that is
  not empty.
\<close>

fun radius_loop ::
  "'w env \<Rightarrow> stl_args \<Rightarrow> int list \<Rightarrow> nat \<times> nat \<Rightarrow> 'w state
     \<Rightarrow> (py_error + nat \<times> nat) \<times> 'w state" where
  "radius_loop env args [] (total_success, total_generated) s =
     (Inr (total_success, total_generated), s)"
| "radius_loop env args (r # rest) (total_success, total_generated) s =
     (let s1 = (if verbose args then print (Radius_banner r (angle args)) s else s)
      in if config args \<noteq> None \<and> config args \<noteq> Some []
         then
           (let output_file = Stl_path (output_dir args) r (the (config args))
            in case generate_stl env (scad_file args) output_file r (angle args)
                      (the (config args)) (verbose args) (diverse args) s1 of
                 (Inl e, s2) \<Rightarrow> (Inl e, s2)
               | (Inr ok, s2) \<Rightarrow>
                   radius_loop env args rest
                     (if ok then total_success + 1 else total_success, total_generated + 1) s2)
         else
           (case generate_all_configs env (scad_file args) (output_dir args) r (angle args)
                   (verbose args) (diverse args) s1 of
              (Inl e, s2) \<Rightarrow> (Inl e, s2)
            | (Inr (success, total_count), s2) \<Rightarrow>
                radius_loop env args rest
                  (total_success + success, total_generated + total_count) s2))"

text \<open>
  \<^verbatim>\<open>main\<close> of the inner generator, after the command line is parsed: the scene file is
  looked for first, then \<^verbatim>\<open>openscad\<close>, and only then the loop starts.
\<close>

definition generate_stls_main :: "'w env \<Rightarrow> stl_args \<Rightarrow> 'w state \<Rightarrow> exit_status \<times> 'w state" where
  "generate_stls_main env args s =
     (if \<not> path_exists env (world s) (scad_file args)
      then (Exit 1, print (Scad_not_found (scad_file args)) s)
      else
        (case check_openscad env s of
           (Some status, s1) \<Rightarrow> (status, s1)
         | (None, s1) \<Rightarrow>
             (case radius_loop env args (radius args) (0, 0) s1 of
                (Inl e, s2) \<Rightarrow> (Uncaught e, s2)
              | (Inr (total_success, total_generated), s2) \<Rightarrow>
                  (let s3 = print (Stl_summary total_success total_generated (output_dir args)) s2
                   in if total_success < total_generated then (Exit 1, s3) else (Exit 0, s3)))))"

section \<open>Notions used to state the properties\<close>

text \<open>
  A child succeeded if it exited with return code zero. A job is a subprocess together
  with the way it ended; \<open>count_ok\<close> counts the jobs that succeeded, and \<open>failed_of\<close>
  picks from a list of radii those whose job, at the same position, did not.
\<close>

fun child_ok :: "child \<Rightarrow> bool" where
  "child_ok (Exited returncode err) = (returncode = 0)"
| "child_ok Timed_out = False"
| "child_ok (Failed msg) = False"



text \<open>
  The angle of a radius as the comments in \<open>ANGLE_MAP\<close> describe it (22.5, stepping
  down at 40, at 64 and at 96), which is what the table holds for every radius of \<open>RADII\<close>,
  and the command line that the batch driver, which always passes its output directory,
  starts for a radius.
\<close>

definition stepped_angle :: "int \<Rightarrow> rat" where
  "stepped_angle r = (if r < 40 then 22.5 else if r < 64 then 18 else if r < 96 then 15 else 11.25)"

definition generator_command :: "int \<Rightarrow> rat \<Rightarrow> int \<Rightarrow> string \<Rightarrow> bool \<Rightarrow> command" where
  "generator_command r a d dir v =
     [Str ''python3'', Str ''generate_stls.py'', Str ''-r'', Num r, Str ''-a'', Flt a,
      Str ''-d'', Num d, Str ''-o'', Str dir] @ (if v then [Str ''-v''] else [])"


text \<open>
  An environment to try the scripts in. Its world is the number of subprocesses started
  so far: the third one exits with return code 1, the fifth one runs into the timeout,
  the sixth one cannot be started, and every other one succeeds. The only file is
  \<^verbatim>\<open>curves.scad\<close>, and every directory can be made.
\<close>

definition example_env :: "nat env" where
  "example_env =
     \<lparr>spawn = (\<lambda>w cmd. (if w = 2 then Exited 1 ''boom''
                         else if w = 4 then Timed_out
                         else if w = 5 then Failed ''cannot start''
                         else Exited 0 [], Suc w)),
      path_exists = (\<lambda>w p. p = ''curves.scad''),
      mkdir = (\<lambda>w p. (None, w))\<rparr>"

section \<open>Rounding to binary64\<close>

text \<open>
  Rounding to an integer: an integer is its own rounding, the rounding lies between the
  neighbouring integers, and a value on or beyond the midpoint below an even integer is
  rounded up to it.
\<close>

lemma rhe_of_int: "round_half_even (of_int n) = n"
  by (simp add: round_half_even_def)

lemma rhe_floor: "\<lfloor>z\<rfloor> \<le> round_half_even z \<and> round_half_even z \<le> \<lfloor>z\<rfloor> + 1"
  by (simp add: round_half_even_def Let_def)

lemma rhe_ge: 
  assumes "of_int n \<le> z" shows "n \<le> round_half_even z"
proof -
  have "n \<le> \<lfloor>z\<rfloor>" using assms by (simp add: le_floor_iff)
  then show ?thesis using rhe_floor [of z] by linarith
qed

lemma rhe_le:
  assumes "z \<le> of_int n" shows "round_half_even z \<le> n"
proof (cases "z = of_int n")
  case True
  then show ?thesis by (simp add: rhe_of_int)
next
  case False
  then have "z < of_int n" using assms by simp
  then have "\<lfloor>z\<rfloor> < n" by (simp add: floor_less_iff)
  then show ?thesis using rhe_floor [of z] by linarith
qed

lemma rhe_upper: "of_int (round_half_even z) \<le> z + 1 / 2"
proof -
  have f: "of_int \<lfloor>z\<rfloor> \<le> z" by simp
  show ?thesis
    unfolding round_half_even_def Let_def using f by (simp; linarith)
qed

lemma rhe_below_half:
  assumes "z < of_int n + 1 / 2" shows "round_half_even z \<le> n"
proof -
  have f: "of_int \<lfloor>z\<rfloor> \<le> z" by simp
  have "(of_int \<lfloor>z\<rfloor> :: rat) < of_int (n + 1)" using f assms by simp linarith
  then have fn: "\<lfloor>z\<rfloor> < n + 1" by (simp only: of_int_less_iff)
  show ?thesis
  proof (cases "\<lfloor>z\<rfloor> = n")
    case True
    then have "z - of_int \<lfloor>z\<rfloor> < 1 / 2" using assms by simp
    then show ?thesis using True by (simp add: round_half_even_def Let_def)
  next
    case False
    then have "\<lfloor>z\<rfloor> + 1 \<le> n" using fn by simp
    then show ?thesis using rhe_floor [of z] by linarith
  qed
qed

lemma rhe_above_half:
  assumes "of_int n - 1 / 2 \<le> z" and "even n" shows "n \<le> round_half_even z"
proof -
  have "(of_int (n - 1) :: rat) < z" using assms(1) by simp
  then have "(of_int (n - 1) :: rat) \<le> z" by simp
  then have fn: "n - 1 \<le> \<lfloor>z\<rfloor>" by (simp only: le_floor_iff)
  show ?thesis
  proof (cases "\<lfloor>z\<rfloor> = n - 1")
    case True
    then have d: "1 / 2 \<le> z - of_int \<lfloor>z\<rfloor>" using assms(1) by simp
    have "odd \<lfloor>z\<rfloor>" using True assms(2) by simp
    then show ?thesis using True d by (simp add: round_half_even_def Let_def)
  next
    case False
    then have "n \<le> \<lfloor>z\<rfloor>" using fn by simp
    then show ?thesis using rhe_floor [of z] by linarith
  qed
qed


text \<open>
  From \<open>2 powi (-1022)\<close> on, \<open>binade\<close> is the exponent of its argument, and the argument
  divided by its \<open>ulp\<close> lies between \<open>2 ^ 52\<close> and \<open>2 ^ 53\<close>.
\<close>

lemma binade_normal:
  assumes "1 / 2 ^ 1022 \<le> y"
  shows "2 powi binade y \<le> y" and "y < 2 powi (binade y + 1)" and "- 1022 \<le> binade y"
proof -
  let ?Y = "y * 2 ^ 1074"
  let ?B = "bitlen \<lfloor>?Y\<rfloor>"
  have "(1 / 2 ^ 1022) * 2 ^ 1074 \<le> ?Y" using assms by (simp only: mult_le_cancel_right_pos zero_less_power zero_less_numeral)
  then have Y52: "2 ^ 52 \<le> ?Y" by simp
  then have F52: "(2 ^ 52 :: int) \<le> \<lfloor>?Y\<rfloor>" by (simp add: le_floor_iff)
  then have pos: "0 < \<lfloor>?Y\<rfloor>"
    by (rule less_le_trans [rotated]) simp
  show "- 1022 \<le> binade y" by (simp add: binade_def)
  from bitlen_bounds [OF pos]
  have lo: "2 ^ nat (?B - 1) \<le> \<lfloor>?Y\<rfloor>" and hi: "\<lfloor>?Y\<rfloor> < 2 ^ nat ?B" by simp_all
  have "(2 ^ 52 :: int) < 2 ^ nat ?B" using F52 hi by linarith
  then have "52 < nat ?B" by (simp only: power_strict_increasing_iff one_less_numeral_iff semiring_norm)
  then have B53: "53 \<le> ?B" by linarith
  then have bin: "binade y = ?B - 1075" by (simp add: binade_def)
  have "(of_int (2 ^ nat (?B - 1)) :: rat) \<le> of_int \<lfloor>?Y\<rfloor>" using lo by (simp only: of_int_le_iff)
  also have "\<dots> \<le> ?Y" by simp
  finally have "(2 :: rat) ^ nat (?B - 1) \<le> ?Y" by simp
  then have "(2 :: rat) powi (?B - 1) \<le> ?Y" using B53 by (simp add: power_int_def)
  then have "(2 :: rat) powi (?B - 1) / 2 ^ 1074 \<le> y" by (simp add: pos_divide_le_eq)
  moreover have "(2 :: rat) powi (?B - 1) / 2 ^ 1074 = 2 powi (?B - 1 - 1074)"
    by (simp add: power_int_diff)
  ultimately show "2 powi binade y \<le> y" by (simp add: bin)
  have "(of_int \<lfloor>?Y\<rfloor> :: rat) < of_int (2 ^ nat ?B)" using hi by (simp only: of_int_less_iff)
  then have "\<lfloor>?Y\<rfloor> < (2 :: int) ^ nat ?B" by simp
  then have "?Y < of_int (2 ^ nat ?B)" by (simp only: floor_less_iff)
  then have "?Y < 2 ^ nat ?B" by simp
  then have "?Y < 2 powi ?B" using B53 by (simp add: power_int_def)
  then have "y < 2 powi ?B / 2 ^ 1074" by (simp add: pos_less_divide_eq)
  moreover have "(2 :: rat) powi ?B / 2 ^ 1074 = 2 powi (?B - 1074)"
    by (simp add: power_int_diff)
  ultimately show "y < 2 powi (binade y + 1)" by (simp add: bin)
qed


lemma ulp_pos: "0 < ulp y"
  by (simp add: ulp_def)

lemma ulp_binade: "ulp y * 2 ^ 52 = 2 powi binade y"
proof -
  have "(2 :: rat) powi (binade y - 52) * 2 powi 52 = 2 powi binade y"
    by (simp add: power_int_diff)
  then show ?thesis by (simp add: ulp_def)
qed

lemma significand_bounds:
  assumes "1 / 2 ^ 1022 \<le> y"
  shows "2 ^ 52 \<le> y / ulp y" and "y / ulp y < 2 ^ 53"
proof -
  have "2 ^ 52 * ulp y \<le> y"
    using binade_normal(1) [OF assms] ulp_binade [of y] by (simp add: mult.commute)
  then show "2 ^ 52 \<le> y / ulp y" using ulp_pos [of y] by (simp add: pos_le_divide_eq)
  have "(2 :: rat) powi (binade y + 1) = 2 powi binade y * 2"
    by (simp add: power_int_add)
  then have "y < 2 ^ 53 * ulp y"
    using binade_normal(2) [OF assms] ulp_binade [of y] by (simp add: mult.commute)
  then show "y / ulp y < 2 ^ 53" using ulp_pos [of y] by (simp add: pos_divide_less_eq)
qed

text \<open>
  What the rounding does: a value that is a multiple of its \<open>ulp\<close> is kept, in particular
  every multiple of \<open>1/16\<close> below \<open>2 ^ 49\<close>; a value below \<open>2 ^ 1024 - 2 ^ 970\<close> has a
  finite rounding, which is at most the value times \<open>1 + 2 powi (-53)\<close> and at least the
  power of two below the value; and a value from \<open>2 ^ 1024 - 2 ^ 970\<close> on overflows.
\<close>

lemma round_double_value:
  "round_double y = (if 2 ^ 1024 \<le> of_int (round_half_even (y / ulp y)) * ulp y then Infinity
                     else Fin (of_int (round_half_even (y / ulp y)) * ulp y))"
  by (simp add: round_double_def Let_def)

lemma round_double_exact:
  assumes "y < 2 ^ 1024" and "y / ulp y = of_int m"
  shows "round_double y = Fin y"
proof -
  have "ulp y \<noteq> 0" using ulp_pos [of y] by simp
  then have "y = of_int m * ulp y" using assms(2) by (simp add: nonzero_divide_eq_eq)
  moreover have "round_half_even (y / ulp y) = m" by (simp only: assms(2) rhe_of_int)
  ultimately have "of_int (round_half_even (y / ulp y)) * ulp y = y"
    by simp
  then show ?thesis using assms(1) by (simp add: round_double_value)
qed

lemma round_double_zero: "round_double 0 = Fin 0"
  by (rule round_double_exact [where m = 0]) simp_all


lemma two_powi_less_imp:
  assumes "(2 :: rat) powi m < 2 powi n" shows "m < n"
proof (rule ccontr)
  assume "\<not> m < n"
  then have "n \<le> m" by simp
  then have "(2 :: rat) powi n \<le> 2 powi m" by (rule power_int_increasing) simp
  then show False using assms by simp
qed

lemma binade_less:
  assumes "1 / 2 ^ 1022 \<le> y" and "y < 2 powi k"
  shows "binade y < k"
proof -
  have "(2 :: rat) powi binade y < 2 powi k"
    using binade_normal(1) [OF assms(1)] assms(2) by (rule le_less_trans)
  then show ?thesis by (rule two_powi_less_imp)
qed

lemma binade_ge:
  assumes "1 / 2 ^ 1022 \<le> y" and "2 powi k \<le> y"
  shows "k \<le> binade y"
proof -
  have "(2 :: rat) powi k < 2 powi (binade y + 1)"
    using assms(2) binade_normal(2) [OF assms(1)] by (rule le_less_trans)
  then have "k < binade y + 1" by (rule two_powi_less_imp)
  then show ?thesis by simp
qed

lemma round_double_sixteenths:
  assumes "0 \<le> j" and "j < 2 ^ 53"
  shows "round_double (of_int j / 16) = Fin (of_int j / 16)"
proof (cases "j = 0")
  case True
  then show ?thesis by (simp add: round_double_zero)
next
  case False
  let ?y = "of_int j / 16 :: rat"
  have j1: "1 \<le> j" using assms(1) False by simp
  then have "(1 :: rat) \<le> of_int j" by (simp only: of_int_1_le_iff)
  then have y16: "1 / 16 \<le> ?y" by simp
  have "(1 :: rat) / 2 ^ 1022 \<le> 1 / 16" by simp
  then have norm: "1 / 2 ^ 1022 \<le> ?y" using y16 by (rule order_trans)
  have "(of_int j :: rat) < of_int (2 ^ 53)" using assms(2) by (simp only: of_int_less_iff)
  then have jr: "(of_int j :: rat) < 2 ^ 53" by simp
  then have y49: "?y < 2 powi 49" by simp
  then have "?y < 2 ^ 1024" by simp
  moreover have "?y / ulp ?y = of_int (j * 2 ^ nat (48 - binade ?y))"
  proof -
    have e: "binade ?y \<le> 48" using binade_less [OF norm y49] by simp
    have "?y / ulp ?y = ?y * 2 powi (52 - binade ?y)"
      by (simp add: ulp_def power_int_diff)
    also have "(2 :: rat) powi (52 - binade ?y) = 2 powi (48 - binade ?y) * 16"
      by (simp add: power_int_diff)
    also have "(2 :: rat) powi (48 - binade ?y) = 2 ^ nat (48 - binade ?y)"
      using e by (simp add: power_int_def)
    finally show ?thesis by simp
  qed
  ultimately show ?thesis by (rule round_double_exact)
qed


lemma rounded_lower:
  assumes "1 / 2 ^ 1022 \<le> y"
  shows "2 powi binade y \<le> of_int (round_half_even (y / ulp y)) * ulp y"
proof -
  have "(of_int (2 ^ 52) :: rat) \<le> y / ulp y" using significand_bounds(1) [OF assms] by simp
  then have "2 ^ 52 \<le> round_half_even (y / ulp y)" by (rule rhe_ge)
  then have "(of_int (2 ^ 52) :: rat) \<le> of_int (round_half_even (y / ulp y))"
    by (simp only: of_int_le_iff)
  then have "2 ^ 52 * ulp y \<le> of_int (round_half_even (y / ulp y)) * ulp y"
    using ulp_pos [of y] by simp
  then show ?thesis using ulp_binade [of y] by (simp add: mult.commute)
qed

lemma rounded_upper:
  assumes "1 / 2 ^ 1022 \<le> y"
  shows "of_int (round_half_even (y / ulp y)) * ulp y \<le> y + y / 2 ^ 53"
proof -
  have "of_int (round_half_even (y / ulp y)) * ulp y \<le> (y / ulp y + 1 / 2) * ulp y"
    using rhe_upper [of "y / ulp y"] ulp_pos [of y] by (simp only: mult_le_cancel_right_pos)
  also have "\<dots> = y + ulp y / 2" using ulp_pos [of y] by (simp add: field_simps)
  also have "\<dots> \<le> y + y / 2 ^ 53"
  proof -
    have "ulp y * 2 ^ 52 \<le> y" using binade_normal(1) [OF assms] ulp_binade [of y] by simp
    then show ?thesis by simp
  qed
  finally show ?thesis .
qed

lemma round_double_finite:
  assumes "1 / 2 ^ 1022 \<le> y" and "y < 2 ^ 1024 - 2 ^ 970"
  obtains v where "round_double y = Fin v" and "v \<le> y + y / 2 ^ 53" and "2 powi binade y \<le> v"
    and "v < 2 ^ 1024"
proof -
  let ?v = "of_int (round_half_even (y / ulp y)) * ulp y"
  have "y < 2 powi 1024" using assms(2) by simp
  then have e: "binade y \<le> 1023" using binade_less [OF assms(1)] by fastforce
  have "?v < 2 ^ 1024"
  proof (cases "binade y = 1023")
    case True
    then have u: "ulp y = 2 ^ 971" by (simp add: ulp_def)
    have "y / 2 ^ 971 < of_int (2 ^ 53 - 1) + 1 / 2" using assms(2) by (simp add: pos_divide_less_eq)
    then have "round_half_even (y / ulp y) \<le> 2 ^ 53 - 1" unfolding u by (rule rhe_below_half)
    then have "(of_int (round_half_even (y / ulp y)) :: rat) \<le> of_int (2 ^ 53 - 1)"
      by (simp only: of_int_le_iff)
    then have "?v \<le> of_int (2 ^ 53 - 1) * 2 ^ 971" unfolding u by simp
    also have "\<dots> < 2 ^ 1024" by simp
    finally show ?thesis .
  next
    case False
    then have e': "binade y + 1 \<le> 1023" using e by simp
    have "y / ulp y \<le> of_int (2 ^ 53)" using significand_bounds(2) [OF assms(1)] by simp
    then have "round_half_even (y / ulp y) \<le> 2 ^ 53" by (rule rhe_le)
    then have "(of_int (round_half_even (y / ulp y)) :: rat) \<le> of_int (2 ^ 53)"
      by (simp only: of_int_le_iff)
    then have "?v \<le> 2 ^ 53 * ulp y" using ulp_pos [of y] by simp
    also have "\<dots> = 2 powi (binade y + 1)"
      using ulp_binade [of y] by (simp add: power_int_add)
    also have "\<dots> \<le> 2 powi 1023" using e' by (rule power_int_increasing) simp
    also have "\<dots> < 2 ^ 1024" by simp
    finally show ?thesis .
  qed
  then have "round_double y = Fin ?v" and "?v < 2 ^ 1024" by (simp_all add: round_double_value)
  then show ?thesis
    using rounded_upper [OF assms(1)] rounded_lower [OF assms(1)] that by blast
qed

lemma round_double_overflow:
  assumes "2 ^ 1024 - 2 ^ 970 \<le> y"
  shows "round_double y = Infinity"
proof -
  let ?v = "of_int (round_half_even (y / ulp y)) * ulp y"
  have "(1 :: rat) / 2 ^ 1022 \<le> 2 ^ 1024 - 2 ^ 970" by simp
  then have norm: "1 / 2 ^ 1022 \<le> y" using assms by (rule order_trans)
  have "(2 :: rat) powi 1023 \<le> 2 ^ 1024 - 2 ^ 970" by simp
  then have "2 powi 1023 \<le> y" using assms by (rule order_trans)
  then have e: "1023 \<le> binade y" by (rule binade_ge [OF norm])
  have "2 ^ 1024 \<le> ?v"
  proof (cases "binade y = 1023")
    case True
    then have u: "ulp y = 2 ^ 971" by (simp add: ulp_def)
    have "of_int (2 ^ 53) - 1 / 2 \<le> y / 2 ^ 971" using assms by (simp add: pos_le_divide_eq)
    then have "2 ^ 53 \<le> round_half_even (y / ulp y)" unfolding u by (rule rhe_above_half) simp
    then have "(of_int (2 ^ 53) :: rat) \<le> of_int (round_half_even (y / ulp y))"
      by (simp only: of_int_le_iff)
    then have "of_int (2 ^ 53) * 2 ^ 971 \<le> ?v" unfolding u by simp
    then show ?thesis by simp
  next
    case False
    then have "1024 \<le> binade y" using e by simp
    then have "(2 :: rat) powi 1024 \<le> 2 powi binade y" by (rule power_int_increasing) simp
    also have "\<dots> \<le> ?v" by (rule rounded_lower [OF norm])
    finally show ?thesis by simp
  qed
  then show ?thesis by (simp add: round_double_value)
qed


text \<open>
  The closed form of \<open>calculate_diverse\<close>. With \<open>n\<close> the square of the distance from 64:
  below \<open>2 ^ 48\<close> the conversion, the product \<open>13 n / 16\<close> and the sum are exact; from there
  up to the overflow of the conversion all three intermediate values are finite and at
  least \<open>2 ^ 47\<close>, so that the minimum with 1800 is 1800, as it is for the exact value.
\<close>

lemma float_of_int_exact:
  assumes "0 \<le> n" and "n < 2 ^ 49"
  shows "float_of_int n = Inr (of_int n)"
proof -
  have "round_double (of_int (16 * n) / 16) = Fin (of_int (16 * n) / 16)"
    using assms by (intro round_double_sixteenths) simp_all
  then show ?thesis by (simp add: float_of_int_def)
qed

lemma float_of_int_overflow:
  assumes "2 ^ 1024 - 2 ^ 970 \<le> n"
  shows "float_of_int n = Inl OverflowError"
proof -
  have "(of_int (2 ^ 1024 - 2 ^ 970) :: rat) \<le> of_int n" using assms by (simp only: of_int_le_iff)
  then have "round_double (of_int n) = Infinity" by (intro round_double_overflow) simp
  then show ?thesis by (simp add: float_of_int_def)
qed

lemma diverse_small:
  assumes "0 \<le> n" and "n < 2 ^ 48"
  shows "int_of_float (float_add (float_mul (13 / 16) (of_int n)) 500) = Inr (13 * n div 16 + 500)"
proof -
  have "float_mul (13 / 16) (of_int n) = round_double (of_int (13 * n) / 16)"
    by (simp add: float_mul_def)
  also have "\<dots> = Fin (of_int (13 * n) / 16)"
    using assms by (intro round_double_sixteenths) simp_all
  finally have "float_add (float_mul (13 / 16) (of_int n)) 500 = round_double (of_int (13 * n + 8000) / 16)"
    by (simp add: add_divide_distrib)
  also have "\<dots> = Fin (of_int (13 * n + 8000) / 16)"
    using assms by (intro round_double_sixteenths) simp_all
  finally have "int_of_float (float_add (float_mul (13 / 16) (of_int n)) 500)
      = Inr \<lfloor>(of_int (13 * n + 8000) :: rat) / of_int 16\<rfloor>"
    using assms(1) by simp
  also have "\<lfloor>(of_int (13 * n + 8000) :: rat) / of_int 16\<rfloor> = (13 * n + 8000) div 16"
    by (rule floor_divide_of_int_eq)
  finally show ?thesis by simp
qed


lemma round_double_large:
  assumes "2 ^ k \<le> y" and "y < 2 ^ 1024 - 2 ^ 970"
  obtains v where "round_double y = Fin v" and "2 ^ k \<le> v" and "v \<le> y + y / 2 ^ 53"
    and "v < 2 ^ 1024"
proof -
  have "(1 :: rat) / 2 ^ 1022 \<le> 1" by simp
  also have "(1 :: rat) \<le> 2 ^ k" by simp
  finally have norm: "1 / 2 ^ 1022 \<le> y" using assms(1) by simp
  from round_double_finite [OF norm assms(2)] obtain v
    where v: "round_double y = Fin v" "v \<le> y + y / 2 ^ 53" "2 powi binade y \<le> v" "v < 2 ^ 1024"
    by blast
  have "2 powi int k \<le> y" using assms(1) by simp
  then have "int k \<le> binade y" by (rule binade_ge [OF norm])
  then have "(2 :: rat) powi int k \<le> 2 powi binade y" by (rule power_int_increasing) simp
  then have "2 ^ k \<le> v" using v(3) by simp
  with v(1) show ?thesis using v(2) v(4) by (rule that)
qed

lemma diverse_large:
  assumes "2 ^ 48 \<le> n" and "n < 2 ^ 1024 - 2 ^ 970"
  obtains sq d where "float_of_int n = Inr sq"
    and "int_of_float (float_add (float_mul (13 / 16) sq) 500) = Inr d" and "1800 \<le> d"
proof -
  have "(of_int (2 ^ 48) :: rat) \<le> of_int n" using assms(1) by (simp only: of_int_le_iff)
  then have n48: "(2 :: rat) ^ 48 \<le> of_int n" by simp
  have "(of_int n :: rat) < of_int (2 ^ 1024 - 2 ^ 970)" using assms(2) by (simp only: of_int_less_iff)
  then have nmax: "(of_int n :: rat) < 2 ^ 1024 - 2 ^ 970" by simp
  from round_double_large [OF n48 nmax] obtain v1
    where v1: "round_double (of_int n) = Fin v1" "2 ^ 48 \<le> v1" and v1max: "v1 < 2 ^ 1024"
    by blast
  have y2lo: "2 ^ 47 \<le> 13 / 16 * v1" using v1(2) by simp
  have y2hi: "13 / 16 * v1 < 13 * 2 ^ 1020" using v1max by simp
  then have "13 / 16 * v1 < 2 ^ 1024 - 2 ^ 970" by simp
  from round_double_large [OF y2lo this] obtain v2
    where v2: "round_double (13 / 16 * v1) = Fin v2" "2 ^ 47 \<le> v2"
      "v2 \<le> 13 / 16 * v1 + 13 / 16 * v1 / 2 ^ 53"
    by blast
  have y3lo: "2 ^ 47 \<le> v2 + 500" using v2(2) by simp
  have "v2 < 14 * 2 ^ 1020" using v2(3) y2hi by simp
  then have "v2 + 500 < 2 ^ 1024 - 2 ^ 970" by simp
  from round_double_large [OF y3lo this] obtain v3
    where v3: "round_double (v2 + 500) = Fin v3" "2 ^ 47 \<le> v3"
    by blast
  have "(of_int (2 ^ 47) :: rat) \<le> v3" using v3(2) by simp
  then have "2 ^ 47 \<le> \<lfloor>v3\<rfloor>" by (simp only: le_floor_iff)
  then have fl: "1800 \<le> \<lfloor>v3\<rfloor>" by simp
  have "0 \<le> v3" using v3(2) by simp
  then have "int_of_float (Fin v3) = Inr \<lfloor>v3\<rfloor>" by simp
  then have "int_of_float (float_add (float_mul (13 / 16) v1) 500) = Inr \<lfloor>v3\<rfloor>"
    by (simp only: float_mul_def v2(1) float_add.simps v3(1))
  moreover have "float_of_int n = Inr v1" by (simp add: float_of_int_def v1(1))
  ultimately show ?thesis using fl that by blast
qed

lemma diverse_formula_large: "(1600 :: int) \<le> n \<Longrightarrow> 1800 \<le> 13 * n div 16 + 500"
  by arith

lemma calculate_diverse_eq:
  "calculate_diverse r =
     (if (r - 64) ^ 2 < 2 ^ 1024 - 2 ^ 970
      then Inr (min (13 * (r - 64) ^ 2 div 16 + 500) 1800)
      else Inl OverflowError)"
proof -
  let ?n = "(r - 64) ^ 2"
  have n0: "0 \<le> ?n" by simp
  have m: "float_of_int 500 = Inr 500" using float_of_int_exact [of 500] by simp
  consider (small) "?n < 2 ^ 48" | (large) "2 ^ 48 \<le> ?n" "?n < 2 ^ 1024 - 2 ^ 970"
    | (over) "2 ^ 1024 - 2 ^ 970 \<le> ?n" by linarith
  then show ?thesis
  proof cases
    case small
    then have "?n < 2 ^ 49" by simp
    then have sq: "float_of_int ?n = Inr (of_int ?n)" using n0 by (intro float_of_int_exact)
    have lt: "?n < 2 ^ 1024 - 2 ^ 970" using small by simp
    show ?thesis
      unfolding calculate_diverse_def Let_def
      by (simp only: sq m diverse_small [OF n0 small] lt sum.case if_True)
  next
    case large
    from diverse_large [OF large] obtain sq d where sq: "float_of_int ?n = Inr sq"
      and d: "int_of_float (float_add (float_mul (13 / 16) sq) 500) = Inr d" and d1800: "1800 \<le> d"
      by blast
    have "1600 \<le> ?n" using large(1) by simp
    then have "1800 \<le> 13 * ?n div 16 + 500" by (rule diverse_formula_large)
    then have rhs: "min (13 * ?n div 16 + 500) 1800 = 1800" by simp
    have lhs: "min d 1800 = 1800" using d1800 by simp
    show ?thesis
      unfolding calculate_diverse_def Let_def
      by (simp only: sq m d large(2) sum.case if_True rhs lhs)
  next
    case over
    then have "float_of_int ?n = Inl OverflowError" by (rule float_of_int_overflow)
    moreover have "\<not> ?n < 2 ^ 1024 - 2 ^ 970" using over by simp
    ultimately show ?thesis
      unfolding calculate_diverse_def Let_def by (simp only: sum.case if_False)
  qed
qed

section \<open>Properties of the parameter table\<close>

text \<open>
  The float literals of the source are binary64 values, the specification's formula is
  the same closed form, and on \<open>RADII\<close> nothing overflows.
\<close>

lemma literal_a_exact: "round_double 0.8125 = Fin (13 / 16)"
  using round_double_sixteenths [of 13] by simp

lemma literals_angle_exact: "round_double 22.5 = Fin 22.5" "round_double 11.25 = Fin 11.25"
  using round_double_sixteenths [of 360] round_double_sixteenths [of 180] by simp_all

lemma spec_diverse_eq: "spec_diverse r = min (13 * (r - 64) ^ 2 div 16 + 500) 1800"
proof -
  let ?n = "(r - 64) ^ 2"
  have "(0.8125 :: rat) * of_int ?n + 500 = of_int (13 * ?n + 8000) / of_int 16"
    by simp
  then have "\<lfloor>(0.8125 :: rat) * of_int ?n + 500\<rfloor> = (13 * ?n + 8000) div 16"
    by (simp only: floor_divide_of_int_eq)
  then show ?thesis by (simp add: spec_diverse_def)
qed

lemma radius_in_range:
  assumes "r \<in> set RADII"
  shows "24 \<le> r" and "r \<le> 120" and "(r - 64) ^ 2 < 2 ^ 1024 - 2 ^ 970"
proof -
  show lo: "24 \<le> r" and hi: "r \<le> 120" using assms by (auto simp: RADII_def)
  have "\<bar>r - 64\<bar> \<le> 56" using lo hi by simp
  then have "(r - 64) ^ 2 \<le> 56 ^ 2" by (simp only: abs_le_square_iff [symmetric] abs_numeral)
  then show "(r - 64) ^ 2 < 2 ^ 1024 - 2 ^ 970" by simp
qed

lemma calculate_diverse_RADII:
  "map calculate_diverse RADII =
     map Inr [1800, 1332, 968, 708, 552, 500, 552, 708, 968, 1332, 1800, 1800, 1800]"
  by (simp add: RADII_def calculate_diverse_eq)

lemma DIVERSE_MAP_value:
  "DIVERSE_MAP =
     Inr [(24, 1800), (32, 1332), (40, 968), (48, 708), (56, 552), (64, 500), (72, 552),
          (80, 708), (88, 968), (96, 1332), (104, 1800), (112, 1800), (120, 1800)]"
  by (simp add: DIVERSE_MAP_def RADII_def calculate_diverse_eq)

lemma DIVERSE_MAP_subscript:
  assumes "r \<in> set RADII"
  shows "\<exists>m. DIVERSE_MAP = Inr m \<and> subscript m r = Inr (spec_diverse r)"
  using assms by (auto simp: DIVERSE_MAP_value RADII_def subscript_def spec_diverse_eq)

text \<open>
  Claim C1. For every radius in \<open>RADII\<close>, the value that \<open>calculate_diverse\<close> returns, which
  is also the value stored for that radius in \<open>DIVERSE_MAP\<close>, equals
  \<^verbatim>\<open>min(int(0.8125*(radius-64)^2+500), 1800)\<close>.
\<close>

theorem diverse_matches_formula:
  "\<forall>r\<in>set RADII.
     calculate_diverse r = Inr (spec_diverse r) \<and>
     (\<exists>m. DIVERSE_MAP = Inr m \<and> subscript m r = Inr (spec_diverse r))"
proof
  fix r assume r: "r \<in> set RADII"
  have "calculate_diverse r = Inr (spec_diverse r)"
    using radius_in_range(3) [OF r] by (simp add: calculate_diverse_eq spec_diverse_eq)
  then show "calculate_diverse r = Inr (spec_diverse r) \<and>
     (\<exists>m. DIVERSE_MAP = Inr m \<and> subscript m r = Inr (spec_diverse r))"
    using DIVERSE_MAP_subscript [OF r] by simp
qed

theorem diverse_matches_formula_witness:
  "32 \<in> set RADII \<and> calculate_diverse 32 = Inr 1332 \<and> spec_diverse 32 = 1332 \<and>
   (\<exists>m. DIVERSE_MAP = Inr m \<and> subscript m 32 = Inr 1332)"
proof -
  have r: "32 \<in> set RADII" by (simp add: RADII_def)
  have s: "spec_diverse 32 = 1332" by (simp add: spec_diverse_def)
  show ?thesis using r s bspec [OF diverse_matches_formula r] by simp
qed

text \<open>
  Claim C2, as the code has it. The radius list is an ordered list of exactly 13 integers
  from 24 to 120, and every step between neighbouring radii is 8: the step pattern is
  uniform over the whole range, also at its top.
\<close>

theorem radii_uniform_steps:
  "length RADII = 13 \<and> hd RADII = 24 \<and> last RADII = 120 \<and> sorted RADII \<and> distinct RADII \<and>
   steps RADII = replicate 12 8"
  by (simp add: RADII_def steps_def eval_nat_numeral)

text \<open>
  The claim as it was stated asks for a step pattern that is not uniform, that is for a
  step that differs from the first one. There is none.
\<close>

theorem radii_nonuniform_counterexample:
  "\<not> (length RADII = 13 \<and> hd RADII = 24 \<and> last RADII = 120 \<and>
      steps RADII \<noteq> replicate (length RADII - 1) (hd (steps RADII)))"
  by (simp add: RADII_def steps_def)

text \<open>
  Claim C6. \<open>ANGLE_MAP\<close> has an entry for every radius in \<open>RADII\<close>, and every angle in the
  table is one of 22.5, 18, 15 and 11.25.
\<close>

theorem angle_map_total:
  "(\<forall>r\<in>set RADII. subscript ANGLE_MAP r \<in> Inr ` {22.5, 18, 15, 11.25}) \<and>
   snd ` set ANGLE_MAP \<subseteq> {22.5, 18, 15, 11.25}"
  by (simp add: RADII_def ANGLE_MAP_def subscript_def)

theorem angle_map_total_witness:
  "96 \<in> set RADII \<and> subscript ANGLE_MAP 96 = Inr 11.25"
proof -
  have r: "96 \<in> set RADII" by (simp add: RADII_def)
  have "subscript ANGLE_MAP 96 \<in> Inr ` {22.5, 18, 15, 11.25}"
    using bspec [OF conjunct1 [OF angle_map_total] r] .
  then show ?thesis using r by (simp add: ANGLE_MAP_def subscript_def)
qed

lemma diverse_formula_mono:
  assumes "(n :: int) \<le> m"
  shows "min (13 * n div 16 + 500) 1800 \<le> min (13 * m div 16 + 500) 1800"
proof -
  have "13 * n div 16 \<le> 13 * m div 16" using assms by (intro zdiv_mono1) simp_all
  then show ?thesis by simp
qed

lemma diverse_formula_lower: "500 \<le> min (13 * (r - 64) ^ 2 div 16 + 500) (1800 :: int)"
proof -
  have "0 \<le> 13 * (r - 64) ^ 2" by simp
  then have "0 \<le> 13 * (r - 64) ^ 2 div 16" by (simp only: pos_imp_zdiv_nonneg_iff)
  then show ?thesis by simp
qed

lemma diverse_values:
  assumes "r \<in> set RADII"
  shows "calculate_diverse r =
           Inr (if r = 24 then 1800 else if r = 32 then 1332 else if r = 40 then 968
                else if r = 48 then 708 else if r = 56 then 552 else if r = 64 then 500
                else if r = 72 then 552 else if r = 80 then 708 else if r = 88 then 968
                else if r = 96 then 1332 else 1800)"
  using assms by (auto simp: RADII_def calculate_diverse_eq)

text \<open>
  Claim C8. Over the radii in \<open>RADII\<close> the diverse value lies between 500 and 1800 and has
  a single minimum point: it is 500 at radius 64 and nowhere else. It does not increase
  while the radius grows up to 64, and there it falls strictly; it does not decrease while
  the radius grows from 64 on, and there it rises strictly as long as it is below 1800,
  which it is below radius 104; from radius 104 on it is the clamp value 1800.
\<close>

theorem diverse_monotone_from_vertex:
  "\<forall>r1\<in>set RADII. \<forall>r2\<in>set RADII. \<exists>d1 d2.
     calculate_diverse r1 = Inr d1 \<and> calculate_diverse r2 = Inr d2 \<and>
     500 \<le> d1 \<and> d1 \<le> 1800 \<and> (r1 = 64 \<longrightarrow> d1 = 500) \<and> (d1 = 500 \<longrightarrow> r1 = 64) \<and>
     (r1 \<le> r2 \<and> r2 \<le> 64 \<longrightarrow> d2 \<le> d1) \<and>
     (r1 < r2 \<and> r2 \<le> 64 \<longrightarrow> d2 < d1) \<and>
     (64 \<le> r1 \<and> r1 \<le> r2 \<longrightarrow> d1 \<le> d2) \<and>
     (64 \<le> r1 \<and> r1 < r2 \<and> d1 < 1800 \<longrightarrow> d1 < d2) \<and>
     (104 \<le> r1 \<longrightarrow> d1 = 1800) \<and> (64 \<le> r1 \<and> r1 < 104 \<longrightarrow> d1 < 1800)"
proof (intro ballI)
  fix r1 r2 assume r1: "r1 \<in> set RADII" and r2: "r2 \<in> set RADII"
  let ?t = "\<lambda>r :: int. if r = 24 then 1800 else if r = 32 then 1332 else if r = 40 then 968
                else if r = 48 then 708 else if r = 56 then 552 else if r = 64 then 500
                else if r = 72 then 552 else if r = 80 then 708 else if r = 88 then 968
                else if r = 96 then 1332 else (1800 :: int)"
  have m1: "r1 \<in> {24, 32, 40, 48, 56, 64, 72, 80, 88, 96, 104, 112, 120}"
    and m2: "r2 \<in> {24, 32, 40, 48, 56, 64, 72, 80, 88, 96, 104, 112, 120}"
    using r1 r2 by (simp_all add: RADII_def)
  have "500 \<le> ?t r1 \<and> ?t r1 \<le> 1800 \<and> (r1 = 64 \<longrightarrow> ?t r1 = 500) \<and>
     (?t r1 = 500 \<longrightarrow> r1 = 64) \<and>
     (104 \<le> r1 \<longrightarrow> ?t r1 = 1800) \<and> (64 \<le> r1 \<and> r1 < 104 \<longrightarrow> ?t r1 < 1800)"
    using m1 by auto
  moreover have "(r1 \<le> r2 \<and> r2 \<le> 64 \<longrightarrow> ?t r2 \<le> ?t r1) \<and>
     (r1 < r2 \<and> r2 \<le> 64 \<longrightarrow> ?t r2 < ?t r1) \<and>
     (64 \<le> r1 \<and> r1 \<le> r2 \<longrightarrow> ?t r1 \<le> ?t r2) \<and>
     (64 \<le> r1 \<and> r1 < r2 \<and> ?t r1 < 1800 \<longrightarrow> ?t r1 < ?t r2)"
    using m1 m2 by auto
  ultimately show "\<exists>d1 d2.
     calculate_diverse r1 = Inr d1 \<and> calculate_diverse r2 = Inr d2 \<and>
     500 \<le> d1 \<and> d1 \<le> 1800 \<and> (r1 = 64 \<longrightarrow> d1 = 500) \<and> (d1 = 500 \<longrightarrow> r1 = 64) \<and>
     (r1 \<le> r2 \<and> r2 \<le> 64 \<longrightarrow> d2 \<le> d1) \<and>
     (r1 < r2 \<and> r2 \<le> 64 \<longrightarrow> d2 < d1) \<and>
     (64 \<le> r1 \<and> r1 \<le> r2 \<longrightarrow> d1 \<le> d2) \<and>
     (64 \<le> r1 \<and> r1 < r2 \<and> d1 < 1800 \<longrightarrow> d1 < d2) \<and>
     (104 \<le> r1 \<longrightarrow> d1 = 1800) \<and> (64 \<le> r1 \<and> r1 < 104 \<longrightarrow> d1 < 1800)"
    using diverse_values [OF r1] diverse_values [OF r2] by blast
qed

theorem diverse_monotone_from_vertex_witness:
  "64 \<in> set RADII \<and> 88 \<in> set RADII \<and> 32 \<in> set RADII \<and> 56 \<in> set RADII \<and>
   104 \<in> set RADII \<and> 120 \<in> set RADII \<and>
   calculate_diverse 64 = Inr 500 \<and> calculate_diverse 88 = Inr 968 \<and>
   (64 :: int) \<le> 64 \<and> (64 :: int) < 88 \<and> (500 :: int) < 1800 \<and> (500 :: int) < 968 \<and>
   calculate_diverse 32 = Inr 1332 \<and> calculate_diverse 56 = Inr 552 \<and>
   (32 :: int) < 56 \<and> (56 :: int) \<le> 64 \<and> (552 :: int) < 1332 \<and>
   calculate_diverse 104 = Inr 1800 \<and> calculate_diverse 120 = Inr 1800 \<and>
   (104 :: int) \<le> 104 \<and> (104 :: int) \<le> 120"
proof -
  have m: "64 \<in> set RADII" "88 \<in> set RADII" "32 \<in> set RADII" "56 \<in> set RADII"
    "104 \<in> set RADII" "120 \<in> set RADII" by (simp_all add: RADII_def)
  obtain a1 a2 where a: "calculate_diverse 64 = Inr a1" "calculate_diverse 88 = Inr a2"
    "(64 :: int) = 64 \<longrightarrow> a1 = 500"
    "64 \<le> (64 :: int) \<and> (64 :: int) < 88 \<and> a1 < 1800 \<longrightarrow> a1 < a2"
    using bspec [OF bspec [OF diverse_monotone_from_vertex m(1)] m(2)] by blast
  obtain b1 b2 where b: "calculate_diverse 32 = Inr b1" "calculate_diverse 56 = Inr b2"
    "(32 :: int) < 56 \<and> (56 :: int) \<le> 64 \<longrightarrow> b2 < b1"
    using bspec [OF bspec [OF diverse_monotone_from_vertex m(3)] m(4)] by blast
  obtain c1 c2 where c: "calculate_diverse 104 = Inr c1" "calculate_diverse 120 = Inr c2"
    "(104 :: int) \<le> 104 \<longrightarrow> c1 = 1800"
    "64 \<le> (104 :: int) \<and> (104 :: int) \<le> 120 \<longrightarrow> c1 \<le> c2"
    using bspec [OF bspec [OF diverse_monotone_from_vertex m(5)] m(6)] by blast
  have v: "calculate_diverse 64 = Inr 500" "calculate_diverse 88 = Inr 968"
    "calculate_diverse 32 = Inr 1332" "calculate_diverse 56 = Inr 552"
    "calculate_diverse 104 = Inr 1800" "calculate_diverse 120 = Inr 1800"
    by (simp_all add: calculate_diverse_eq)
  show ?thesis using m v a b c by simp
qed


text \<open>
  Claim C10, as the code has it. For every integer radius whose squared distance from 64
  is below \<open>2 ^ 1024 - 2 ^ 970\<close>, the least integer that Python does not convert to a float,
  \<open>calculate_diverse\<close> returns a value that is at least 500 and at most 1800. For every
  other integer radius the call raises \<^verbatim>\<open>OverflowError\<close> and returns no value.
\<close>

theorem calculate_diverse_bounded:
  "((r - 64) ^ 2 < 2 ^ 1024 - 2 ^ 970 \<longrightarrow>
      (\<exists>d. calculate_diverse r = Inr d \<and> 500 \<le> d \<and> d \<le> 1800)) \<and>
   (2 ^ 1024 - 2 ^ 970 \<le> (r - 64) ^ 2 \<longrightarrow> calculate_diverse r = Inl OverflowError)"
  using diverse_formula_lower [of r] by (simp add: calculate_diverse_eq)

theorem calculate_diverse_bounded_witness:
  "((1000000 :: int) - 64) ^ 2 < 2 ^ 1024 - 2 ^ 970 \<and>
   (\<exists>d. calculate_diverse 1000000 = Inr d \<and> 500 \<le> d \<and> d \<le> 1800) \<and>
   (2 ^ 1024 - 2 ^ 970 :: int) \<le> (64 + 2 ^ 600 - 64) ^ 2 \<and>
   calculate_diverse (64 + 2 ^ 600) = Inl OverflowError"
proof -
  have h1: "((1000000 :: int) - 64) ^ 2 < 2 ^ 1024 - 2 ^ 970" by simp
  have h2: "(2 ^ 1024 - 2 ^ 970 :: int) \<le> (64 + 2 ^ 600 - 64) ^ 2" by simp
  have "\<exists>d. calculate_diverse 1000000 = Inr d \<and> 500 \<le> d \<and> d \<le> 1800"
    using conjunct1 [OF calculate_diverse_bounded [of 1000000]] h1 by (rule mp)
  moreover have "calculate_diverse (64 + 2 ^ 600) = Inl OverflowError"
    using conjunct2 [OF calculate_diverse_bounded [of "64 + 2 ^ 600"]] h2 by (rule mp)
  ultimately show ?thesis using h1 h2 by simp
qed

text \<open>
  The claim as it was stated covers every integer radius. At radius \<open>64 + 2 ^ 512\<close> the
  square is \<open>2 ^ 1024\<close>, its conversion to a float raises \<^verbatim>\<open>OverflowError\<close>, and no value
  is returned.
\<close>

theorem calculate_diverse_unbounded_counterexample:
  "calculate_diverse (64 + 2 ^ 512) = Inl OverflowError"
  by (simp add: calculate_diverse_eq)

section \<open>Properties of the two scripts\<close>

text \<open>
  One call of \<^verbatim>\<open>run_generator\<close> starts one subprocess, returns whether the child
  succeeded, and prints according to the way the child ended.
\<close>

lemma run_generator_run:
  fixes env :: "'w env"
  defines "cmd r a d dir v \<equiv> [Str ''python3'', Str ''generate_stls.py'', Str ''-r'', Num r, Str ''-a'', Flt a,
      Str ''-d'', Num d] @ (case dir of None \<Rightarrow> [] | Some x \<Rightarrow> [Str ''-o'', Str x]) @ (if v then [Str ''-v''] else [])"
  shows "\<exists>c s'. run_generator env r a d dir v s = (child_ok c, s') \<and>
           calls s' = calls s @ [(cmd r a d dir v, c)] \<and>
           out s' = out s @ [if v then Generating_banner r a d else Generating r] @
             (case c of
                Exited returncode err \<Rightarrow>
                  if returncode = 0 then [Status (if v then Blank else Check)]
                  else [Status (if v then Blank else Cross), Error_stderr (if v then None else Some err)]
              | Timed_out \<Rightarrow> [Status (if v then Blank else Cross_timeout), Error_timeout r]
              | Failed msg \<Rightarrow> [Status (if v then Blank else Cross_error),
                                 Error_generating r (OtherException msg)])"
  unfolding run_generator_def subprocess_run_def Let_def cmd_def print_def
  by (cases "spawn env (world s) (cmd r a d dir v)"; cases "fst (spawn env (world s) (cmd r a d dir v))")
     (auto simp: cmd_def split: prod.splits child.splits)








lemma dry_run_table:
  assumes "dry_run args"
  shows "batch_generate_main env args (init w) =
           (Exit 0, \<lparr>world = w, calls = [],
                     out = [Dry_run_header] @
                           map (\<lambda>r. Dry_run_row r (stepped_angle r) (spec_diverse r)) RADII @
                           [Dry_run_total 13 52]\<rparr>)"
  using assms
  by (simp add: batch_generate_main_def DIVERSE_MAP_value RADII_def ANGLE_MAP_def subscript_def
      print_def init_def stepped_angle_def spec_diverse_eq)


text \<open>
  The same for the inner generator: one call of \<^verbatim>\<open>generate_stl\<close> with one of the four
  configurations starts one subprocess and returns whether the child succeeded; the loops
  over the configurations and over the radii run to their end.
\<close>

lemma generate_scad_params_valid:
  assumes "c \<in> fst ` set CONFIGURATIONS"
  shows "\<exists>params. generate_scad_params r a c d = Inr params"
  using assms
  by (auto simp: CONFIGURATIONS_def generate_scad_params_def dict_get_def subscript_def)

lemma generate_scad_params_invalid:
  assumes "c \<notin> fst ` set CONFIGURATIONS"
  shows "generate_scad_params r a c d = Inl ValueError"
proof -
  have "map_of CONFIGURATIONS c = None" using assms by (simp add: map_of_eq_None_iff)
  then show ?thesis by (simp add: generate_scad_params_def dict_get_def)
qed

lemma generate_stl_run:
  assumes "cf \<in> fst ` set CONFIGURATIONS"
  shows "\<exists>cmd c s'.
           generate_stl env sf f r a cf v d s = (Inr (child_ok c), s') \<and>
           calls s' = calls s @ [(cmd, c)] \<and> hd cmd = Str ''openscad'' \<and>
           out s' = out s @ (if v then [Stl_generating f cmd] else []) @
             (case c of
                Exited returncode err \<Rightarrow>
                  if returncode \<noteq> 0 then [Stl_error f (Some err)]
                  else if v then [Stl_ok f] else []
              | Timed_out \<Rightarrow> [Stl_timeout f]
              | Failed msg \<Rightarrow> [Stl_exception f (OtherException msg)])"
proof -
  obtain params where p: "generate_scad_params r a cf d = Inr params"
    using generate_scad_params_valid [OF assms] by blast
  let ?cmd = "[Str ''openscad''] @ params @ [Str ''-o'', f, Str sf]"
  let ?s1 = "if v then print (Stl_generating f ?cmd) s else s"
  obtain c w where sp: "spawn env (world ?s1) ?cmd = (c, w)" by (cases "spawn env (world ?s1) ?cmd")
  show ?thesis
    using sp
    by (cases c) (auto simp: generate_stl_def p subprocess_run_def Let_def print_def)
qed










lemma generate_stls_main_fatal:
  assumes "\<not> path_exists env w (scad_file args) \<or>
           (\<exists>returncode err w1. spawn env w [Str ''which'', Str ''openscad'']
                                     = (Exited returncode err, w1) \<and> returncode \<noteq> 0)"
  shows "\<exists>s'. generate_stls_main env args (init w) = (Exit 1, s') \<and>
              list_all (\<lambda>(cmd, c). cmd = [Str ''which'', Str ''openscad'']) (calls s') \<and>
              out s' = [if path_exists env w (scad_file args) then Openscad_missing
                        else Scad_not_found (scad_file args)]"
proof (cases "path_exists env w (scad_file args)")
  case False
  then show ?thesis by (simp add: generate_stls_main_def init_def print_def)
next
  case True
  then obtain returncode err w1 where
    sp: "spawn env w [Str ''which'', Str ''openscad''] = (Exited returncode err, w1)"
    and rc: "returncode \<noteq> 0" using assms by blast
  show ?thesis
    using True rc
    by (simp add: generate_stls_main_def init_def check_openscad_def subprocess_run_def sp print_def)
qed



text \<open>
  Claim C4, as the code has it. A single-job invocation starts one subprocess and has four
  outcomes: success if the subprocess exits with return code zero; failure if it exits
  with another return code, and then the captured text of its standard error is reported
  (\<^verbatim>\<open>generate_stl\<close> always captures it, \<^verbatim>\<open>run_generator\<close> unless it is verbose); failure
  if the timeout elapses; and failure if starting or running the subprocess raises any
  other exception. Each failure is the return value \<^verbatim>\<open>False\<close>, no exception leaves the
  invoker (for \<^verbatim>\<open>generate_stl\<close>, given one of the four configurations).
\<close>

theorem job_outcomes:
  "(\<exists>cmd c s'.
      run_generator env r a d dir v s = (child_ok c, s') \<and>
      calls s' = calls s @ [(cmd, c)] \<and>
      (case c of
         Exited returncode err \<Rightarrow>
           returncode \<noteq> 0 \<and> \<not> v \<longrightarrow> last (out s') = Error_stderr (Some err)
       | Timed_out \<Rightarrow> last (out s') = Error_timeout r
       | Failed msg \<Rightarrow> last (out s') = Error_generating r (OtherException msg))) \<and>
   (cf \<in> fst ` set CONFIGURATIONS \<longrightarrow>
     (\<exists>cmd c s'.
        generate_stl env2 sf f r2 a2 cf v2 d2 s2 = (Inr (child_ok c), s') \<and>
        calls s' = calls s2 @ [(cmd, c)] \<and>
        (case c of
           Exited returncode err \<Rightarrow>
             returncode \<noteq> 0 \<longrightarrow> last (out s') = Stl_error f (Some err)
         | Timed_out \<Rightarrow> last (out s') = Stl_timeout f
         | Failed msg \<Rightarrow> last (out s') = Stl_exception f (OtherException msg))))"
proof (intro conjI impI)
  from run_generator_run [of env r a d dir v s] obtain c s' cmd where
    run: "run_generator env r a d dir v s = (child_ok c, s')"
    and cl: "calls s' = calls s @ [(cmd, c)]"
    and ou: "out s' = out s @ [if v then Generating_banner r a d else Generating r] @
             (case c of
                Exited returncode err \<Rightarrow>
                  if returncode = 0 then [Status (if v then Blank else Check)]
                  else [Status (if v then Blank else Cross),
                        Error_stderr (if v then None else Some err)]
              | Timed_out \<Rightarrow> [Status (if v then Blank else Cross_timeout), Error_timeout r]
              | Failed msg \<Rightarrow> [Status (if v then Blank else Cross_error),
                                 Error_generating r (OtherException msg)])"
    by blast
  have "case c of
         Exited returncode err \<Rightarrow>
           returncode \<noteq> 0 \<and> \<not> v \<longrightarrow> last (out s') = Error_stderr (Some err)
       | Timed_out \<Rightarrow> last (out s') = Error_timeout r
       | Failed msg \<Rightarrow> last (out s') = Error_generating r (OtherException msg)"
    by (cases c) (simp_all add: ou)
  with run cl show "\<exists>cmd c s'.
      run_generator env r a d dir v s = (child_ok c, s') \<and>
      calls s' = calls s @ [(cmd, c)] \<and>
      (case c of
         Exited returncode err \<Rightarrow>
           returncode \<noteq> 0 \<and> \<not> v \<longrightarrow> last (out s') = Error_stderr (Some err)
       | Timed_out \<Rightarrow> last (out s') = Error_timeout r
       | Failed msg \<Rightarrow> last (out s') = Error_generating r (OtherException msg))"
    by blast
next
  assume "cf \<in> fst ` set CONFIGURATIONS"
  from generate_stl_run [OF this, of env2 sf f r2 a2 v2 d2 s2] obtain cmd c s' where
    run: "generate_stl env2 sf f r2 a2 cf v2 d2 s2 = (Inr (child_ok c), s')"
    and cl: "calls s' = calls s2 @ [(cmd, c)]"
    and ou: "out s' = out s2 @ (if v2 then [Stl_generating f cmd] else []) @
             (case c of
                Exited returncode err \<Rightarrow>
                  if returncode \<noteq> 0 then [Stl_error f (Some err)]
                  else if v2 then [Stl_ok f] else []
              | Timed_out \<Rightarrow> [Stl_timeout f]
              | Failed msg \<Rightarrow> [Stl_exception f (OtherException msg)])"
    by blast
  have "case c of
           Exited returncode err \<Rightarrow>
             returncode \<noteq> 0 \<longrightarrow> last (out s') = Stl_error f (Some err)
         | Timed_out \<Rightarrow> last (out s') = Stl_timeout f
         | Failed msg \<Rightarrow> last (out s') = Stl_exception f (OtherException msg)"
    by (cases c) (simp_all add: ou)
  with run cl show "\<exists>cmd c s'.
        generate_stl env2 sf f r2 a2 cf v2 d2 s2 = (Inr (child_ok c), s') \<and>
        calls s' = calls s2 @ [(cmd, c)] \<and>
        (case c of
           Exited returncode err \<Rightarrow>
             returncode \<noteq> 0 \<longrightarrow> last (out s') = Stl_error f (Some err)
         | Timed_out \<Rightarrow> last (out s') = Stl_timeout f
         | Failed msg \<Rightarrow> last (out s') = Stl_exception f (OtherException msg))"
    by blast
qed

theorem job_outcomes_witness:
  "''ballast'' \<in> fst ` set CONFIGURATIONS \<and>
   run_generator example_env 40 18 968 (Some ''out'') False (init 2) =
     (False,
      \<lparr>world = 3,
       calls = [(generator_command 40 18 968 ''out'' False, Exited 1 ''boom'')],
       out = [Generating 40, Status Cross, Error_stderr (Some ''boom'')]\<rparr>) \<and>
   fst (generate_stl example_env ''curves.scad'' (Stl_path ''out'' 40 ''ballast'') 40 18
          ''ballast'' False None (init 4)) = Inr False \<and>
   last (out (snd (generate_stl example_env ''curves.scad'' (Stl_path ''out'' 40 ''ballast'')
          40 18 ''ballast'' False None (init 4)))) = Stl_timeout (Stl_path ''out'' 40 ''ballast'')"
proof -
  have h: "''ballast'' \<in> fst ` set CONFIGURATIONS" by (simp add: CONFIGURATIONS_def)
  note t = job_outcomes [of example_env 40 18 968 "Some ''out''" False "init 2" "''ballast''"
      example_env "''curves.scad''" "Stl_path ''out'' 40 ''ballast''" 40 18 False None "init 4"]
  from conjunct2 [OF t, rule_format, OF h] obtain cmd c s' where
    g: "generate_stl example_env ''curves.scad'' (Stl_path ''out'' 40 ''ballast'') 40 18
          ''ballast'' False None (init 4) = (Inr (child_ok c), s')"
    and gc: "calls s' = calls (init 4 :: nat state) @ [(cmd, c)]"
    and go: "case c of
           Exited returncode err \<Rightarrow>
             returncode \<noteq> 0 \<longrightarrow> last (out s') = Stl_error (Stl_path ''out'' 40 ''ballast'') (Some err)
         | Timed_out \<Rightarrow> last (out s') = Stl_timeout (Stl_path ''out'' 40 ''ballast'')
         | Failed msg \<Rightarrow> last (out s') = Stl_exception (Stl_path ''out'' 40 ''ballast'') (OtherException msg)"
    by blast
  have e: "generate_stl example_env ''curves.scad'' (Stl_path ''out'' 40 ''ballast'') 40 18
          ''ballast'' False None (init 4) =
        (Inr False,
         \<lparr>world = 5,
          calls = [([Str ''openscad'', Define ''Radius'' (Num 40), Define ''SegAng'' (Flt 18),
                     Define ''generate_track'' (Str ''false''),
                     Define ''generate_ballast'' (Str ''true''),
                     Define ''generate_ballast_buddy'' (Str ''false''), Str ''-o'',
                     Stl_path ''out'' 40 ''ballast'', Str ''curves.scad''], Timed_out)],
          out = [Stl_timeout (Stl_path ''out'' 40 ''ballast'')]\<rparr>)"
    by (simp add: generate_stl_def generate_scad_params_def CONFIGURATIONS_def dict_get_def
        subscript_def subprocess_run_def example_env_def print_def init_def)
  have c: "c = Timed_out" using g gc unfolding e by (auto simp: init_def)
  have r: "run_generator example_env 40 18 968 (Some ''out'') False (init 2) =
     (False,
      \<lparr>world = 3,
       calls = [(generator_command 40 18 968 ''out'' False, Exited 1 ''boom'')],
       out = [Generating 40, Status Cross, Error_stderr (Some ''boom'')]\<rparr>)"
    by (simp add: run_generator_def subprocess_run_def example_env_def print_def init_def
        generator_command_def)
  show ?thesis using h r g go c by simp
qed

text \<open>
  The claim as it was stated has exactly three outcomes: exit with zero, exit with
  another code, timeout. Here the sixth subprocess of the example environment cannot be
  started: it neither exits nor runs into the timeout, and \<^verbatim>\<open>run_generator\<close> returns
  \<^verbatim>\<open>False\<close> from its fourth branch, \<^verbatim>\<open>except Exception\<close>, with a mark and a message
  of its own.
\<close>

theorem job_fourth_outcome_counterexample:
  "run_generator example_env 64 15 500 (Some ''out'') False (init 5) =
     (False,
      \<lparr>world = 6,
       calls = [(generator_command 64 15 500 ''out'' False, Failed ''cannot start'')],
       out = [Generating 64, Status Cross_error,
              Error_generating 64 (OtherException ''cannot start'')]\<rparr>)"
  by (simp add: run_generator_def subprocess_run_def example_env_def print_def init_def
      generator_command_def)

text \<open>
  Claim C5. In dry-run mode the batch driver prints the parameter table, with exactly one
  row for each radius of \<open>RADII\<close>, 13 rows, starts no subprocess, leaves the world as it
  is, and returns.
\<close>

theorem dry_run_prints_table:
  assumes "dry_run args"
  shows "\<exists>rows.
           batch_generate_main env args (init w) =
             (Exit 0, \<lparr>world = w, calls = [],
                       out = [Dry_run_header] @ rows @ [Dry_run_total 13 52]\<rparr>) \<and>
           rows = map (\<lambda>r. Dry_run_row r (stepped_angle r) (spec_diverse r)) RADII \<and>
           length rows = 13"
proof -
  have "length (map (\<lambda>r. Dry_run_row r (stepped_angle r) (spec_diverse r)) RADII) = 13"
    by (simp add: RADII_def)
  then show ?thesis using dry_run_table [OF assms, of env w] by blast
qed

theorem dry_run_prints_table_witness:
  "dry_run \<lparr>verbose = False, output_dir = ''out'', dry_run = True\<rparr> \<and>
   calls (snd (batch_generate_main example_env
            \<lparr>verbose = False, output_dir = ''out'', dry_run = True\<rparr> (init 0))) = [] \<and>
   length (out (snd (batch_generate_main example_env
            \<lparr>verbose = False, output_dir = ''out'', dry_run = True\<rparr> (init 0)))) = 15"
proof -
  let ?args = "\<lparr>verbose = False, output_dir = ''out'', dry_run = True\<rparr>"
  have h: "dry_run ?args" by simp
  from dry_run_prints_table [OF h, of example_env 0] obtain rows where
    "batch_generate_main example_env ?args (init 0) =
       (Exit 0, \<lparr>world = 0, calls = [], out = [Dry_run_header] @ rows @ [Dry_run_total 13 52]\<rparr>)"
    and "length rows = 13" by blast
  then show ?thesis using h by simp
qed

text \<open>
  Claim C7. If the scene file does not exist, or if \<^verbatim>\<open>which openscad\<close> does not exit
  with return code zero (the CAD tool is not on the execution path), the inner generator
  prints the error and ends with exit code 1; the only subprocess it may have started by
  then is \<^verbatim>\<open>which openscad\<close>, never the CAD tool.
\<close>

theorem missing_tool_or_scene_is_fatal:
  assumes "\<not> path_exists env w (scad_file args) \<or>
           (\<exists>returncode err w1. spawn env w [Str ''which'', Str ''openscad'']
                                     = (Exited returncode err, w1) \<and> returncode \<noteq> 0)"
  shows "\<exists>s'. generate_stls_main env args (init w) = (Exit 1, s') \<and>
              list_all (\<lambda>(cmd, c). cmd = [Str ''which'', Str ''openscad'']) (calls s') \<and>
              out s' = [if path_exists env w (scad_file args) then Openscad_missing
                        else Scad_not_found (scad_file args)]"
  using assms by (rule generate_stls_main_fatal)

theorem missing_tool_or_scene_is_fatal_witness:
  "\<not> path_exists example_env 0
       (scad_file \<lparr>verbose = False, output_dir = ''out'', radius = [24], angle = 22.5,
                    config = None, scad_file = ''missing.scad'', diverse = None\<rparr>) \<and>
   generate_stls_main example_env
       \<lparr>verbose = False, output_dir = ''out'', radius = [24], angle = 22.5,
        config = None, scad_file = ''missing.scad'', diverse = None\<rparr> (init 0) =
     (Exit 1, \<lparr>world = 0, calls = [], out = [Scad_not_found ''missing.scad'']\<rparr>) \<and>
   spawn example_env 2 [Str ''which'', Str ''openscad''] = (Exited 1 ''boom'', 3) \<and>
   generate_stls_main example_env
       \<lparr>verbose = False, output_dir = ''out'', radius = [24], angle = 22.5,
        config = None, scad_file = ''curves.scad'', diverse = None\<rparr> (init 2) =
     (Exit 1, \<lparr>world = 3, calls = [([Str ''which'', Str ''openscad''], Exited 1 ''boom'')],
               out = [Openscad_missing]\<rparr>)"
proof -
  let ?a1 = "\<lparr>verbose = False, output_dir = ''out'', radius = [24], angle = 22.5,
        config = None, scad_file = ''missing.scad'', diverse = None\<rparr>"
  let ?a2 = "\<lparr>verbose = False, output_dir = ''out'', radius = [24], angle = 22.5,
        config = None, scad_file = ''curves.scad'', diverse = None\<rparr>"
  have h1: "\<not> path_exists example_env 0 (scad_file ?a1)" by (simp add: example_env_def)
  have h2: "spawn example_env 2 [Str ''which'', Str ''openscad''] = (Exited 1 ''boom'', 3)"
    by (simp add: example_env_def)
  have p2: "path_exists example_env 2 (scad_file ?a2)" by (simp add: example_env_def)
  from missing_tool_or_scene_is_fatal [of example_env 0 ?a1] h1 obtain s1 where
    m1: "generate_stls_main example_env ?a1 (init 0) = (Exit 1, s1)"
    and c1: "list_all (\<lambda>(cmd, c). cmd = [Str ''which'', Str ''openscad'']) (calls s1)"
    and o1: "out s1 = [Scad_not_found (scad_file ?a1)]" by auto
  have "\<exists>returncode err w1. spawn example_env 2 [Str ''which'', Str ''openscad'']
                                     = (Exited returncode err, w1) \<and> returncode \<noteq> 0"
    using h2 by simp
  with missing_tool_or_scene_is_fatal [of example_env 2 ?a2] p2 obtain s2 where
    m2: "generate_stls_main example_env ?a2 (init 2) = (Exit 1, s2)"
    and o2: "out s2 = [Openscad_missing]" by auto
  have e1: "generate_stls_main example_env ?a1 (init 0) =
     (Exit 1, \<lparr>world = 0, calls = [], out = [Scad_not_found ''missing.scad'']\<rparr>)"
    by (simp add: generate_stls_main_def example_env_def print_def init_def)
  have e2: "generate_stls_main example_env ?a2 (init 2) =
     (Exit 1, \<lparr>world = 3, calls = [([Str ''which'', Str ''openscad''], Exited 1 ''boom'')],
               out = [Openscad_missing]\<rparr>)"
    by (simp add: generate_stls_main_def check_openscad_def subprocess_run_def example_env_def
        print_def init_def)
  show ?thesis using h1 h2 e1 e2 m1 m2 by simp
qed

end
